theory Spec2Isabelle
  imports Main "HOL-Library.Sublist"
begin

section \<open>JavaScript strings\<close>

text \<open>
  A JavaScript string is a sequence of code units. The model takes the strings whose code
  units are below 256 and writes them as \<^typ>\<open>string\<close>, one \<^typ>\<open>char\<close> for each code unit.
  The characters that are written with escapes or by their numbers are named.
\<close>

definition backslash :: char where
  "backslash = CHR 0x5C"

definition newline :: char where
  "newline = CHR 0x0A"

definition carriage_return :: char where
  "carriage_return = CHR 0x0D"

text \<open>
  \<open>String.prototype.split\<close> with a string separator \<open>R\<close> and no limit. \<open>T\<close> is the text from
  the last split point \<open>p\<close> up to the position \<open>q\<close> under inspection, the third argument the
  text from \<open>q\<close> on. A separator found at \<open>q\<close> ends at \<open>e = q + length R\<close>; it is passed over
  when \<open>e = p\<close>, which happens for the empty separator only.
\<close>

function split_str_loop :: "string \<Rightarrow> string \<Rightarrow> string \<Rightarrow> string list" where
  "split_str_loop R T [] = [T]"
| "split_str_loop R T (c # cs) =
     (if prefix R (c # cs) \<and> \<not> (R = [] \<and> T = [])
      then T # split_str_loop R [] (drop (length R) (c # cs))
      else split_str_loop R (T @ [c]) cs)"
  by pat_completeness auto
termination
  by (relation "measure (\<lambda>(R, T, S). 2 * length S + (if T = [] then 0 else 1))")
    (auto simp: neq_Nil_conv)

definition split_str :: "string \<Rightarrow> string \<Rightarrow> string list" where
  "split_str S R = (if S = [] then (if R = [] then [] else [S]) else split_str_loop R [] S)"

text \<open>\<open>Array.prototype.join\<close> on an array of strings.\<close>

fun join :: "string list \<Rightarrow> string \<Rightarrow> string" where
  "join [] sep = []"
| "join [x] sep = x"
| "join (x # y # ys) sep = x @ sep @ join (y # ys) sep"

section \<open>Regular expressions\<close>

text \<open>
  The patterns modelled are those built from pattern characters, the dot, alternation and
  capturing groups. A pattern with an unbalanced parenthesis makes the \<open>RegExp\<close> constructor
  throw a \<open>SyntaxError\<close>; a pattern that uses any other syntax character (a quantifier, a
  class, an escape, an assertion) is outside the model, and so is everything computed from
  it.
\<close>

datatype js_error = SyntaxError | TypeError

datatype 'a completion = Normal 'a | Throw js_error | Unmodelled

fun bind_completion :: "'a completion \<Rightarrow> ('a \<Rightarrow> 'b completion) \<Rightarrow> 'b completion" where
  "bind_completion (Normal x) f = f x"
| "bind_completion (Throw e) f = Throw e"
| "bind_completion Unmodelled f = Unmodelled"

text \<open>A group carries its index among the capturing groups, counted from 0 by left parenthesis.\<close>

datatype atom = PatternCharacter char | AnyCharacter | Group nat "atom list list"

type_synonym alternative = "atom list"
type_synonym disjunction = "alternative list"

definition SyntaxCharacter :: "char \<Rightarrow> bool" where
  "SyntaxCharacter c = (c \<in> set (backslash # ''^$.*+?()[]{}|''))"

text \<open>
  The parser reads the pattern from left to right. A frame holds the index of an open group,
  its finished alternatives and the alternative being read; the frame of the innermost open
  group is an argument of its own, the frames around it are the stack, and the outermost
  frame is the pattern itself. \<open>n\<close> counts the groups opened so far.
\<close>

type_synonym frame = "nat \<times> disjunction \<times> alternative"

fun ParsePattern :: "string \<Rightarrow> nat \<Rightarrow> frame \<Rightarrow> frame list \<Rightarrow> (disjunction \<times> nat) completion"
  where
  "ParsePattern [] n (i, alts, cur) stk =
     (if stk = [] then Normal (alts @ [cur], n) else Throw SyntaxError)"
| "ParsePattern (c # cs) n (i, alts, cur) stk =
     (if c = CHR ''('' then ParsePattern cs (Suc n) (n, [], []) ((i, alts, cur) # stk)
      else if c = CHR '')'' then
        (case stk of
           [] \<Rightarrow> Throw SyntaxError
         | (j, alts', cur') # rest \<Rightarrow>
             ParsePattern cs n (j, alts', cur' @ [Group i (alts @ [cur])]) rest)
      else if c = CHR ''|'' then ParsePattern cs n (i, alts @ [cur], []) stk
      else if c = CHR ''.'' then ParsePattern cs n (i, alts, cur @ [AnyCharacter]) stk
      else if SyntaxCharacter c then Unmodelled
      else ParsePattern cs n (i, alts, cur @ [PatternCharacter c]) stk)"

record regexp =
  pattern :: disjunction
  nCaps :: nat
  global :: bool
  ignoreCase :: bool

text \<open>\<open>new RegExp(P, F)\<close>, for the flags \<open>g\<close> and \<open>i\<close>.\<close>

definition RegExp :: "string \<Rightarrow> string \<Rightarrow> regexp completion" where
  "RegExp P F =
     (if \<not> distinct F then Throw SyntaxError
      else if \<not> set F \<subseteq> {CHR ''g'', CHR ''i''} then Unmodelled
      else bind_completion (ParsePattern P 0 (0, [], []) [])
             (\<lambda>(d, n). Normal \<lparr>pattern = d, nCaps = n, global = (CHR ''g'' \<in> set F),
                                ignoreCase = (CHR ''i'' \<in> set F)\<rparr>))"

text \<open>
  \<open>Canonicalize\<close> for a pattern without the \<open>u\<close> flag, as the number of the canonical code
  unit: with \<open>ignoreCase\<close> a character is compared by its upper-case form when that is one
  code unit. Below 256 the letters with such a form are \<open>a\<close> to \<open>z\<close>, the letters from
  \<open>0xE0\<close> to \<open>0xFE\<close> without the division sign \<open>0xF7\<close>, the micro sign \<open>0xB5\<close> and \<open>0xFF\<close>.
\<close>

definition Canonicalize :: "bool \<Rightarrow> char \<Rightarrow> nat" where
  "Canonicalize ic ch =
     (let n = of_char ch in
      if \<not> ic then n
      else if (0x61 \<le> n \<and> n \<le> 0x7A) \<or> (0xE0 \<le> n \<and> n \<le> 0xFE \<and> n \<noteq> 0xF7) then n - 0x20
      else if n = 0xB5 then 0x39C
      else if n = 0xFF then 0x178
      else n)"

type_synonym capture = "string option"

text \<open>
  The backtracking matcher: each function returns every way of matching at the start of the
  text, as the text left over and the captures set, in the order in which backtracking tries
  them. The first element is the match that the engine reports. A capture that took no part
  in the match stays \<open>None\<close>, which is \<open>undefined\<close>. The dot matches every character but
  a line terminator.
\<close>

fun match_atom :: "bool \<Rightarrow> atom \<Rightarrow> string \<Rightarrow> capture list \<Rightarrow> (string \<times> capture list) list"
  and match_alternative ::
    "bool \<Rightarrow> alternative \<Rightarrow> string \<Rightarrow> capture list \<Rightarrow> (string \<times> capture list) list"
  and match_disjunction ::
    "bool \<Rightarrow> disjunction \<Rightarrow> string \<Rightarrow> capture list \<Rightarrow> (string \<times> capture list) list"
  where
  "match_atom ic (PatternCharacter ch) s caps =
     (case s of
        [] \<Rightarrow> []
      | x # xs \<Rightarrow> if Canonicalize ic x = Canonicalize ic ch then [(xs, caps)] else [])"
| "match_atom ic AnyCharacter s caps =
     (case s of
        [] \<Rightarrow> []
      | x # xs \<Rightarrow> if x = newline \<or> x = carriage_return then [] else [(xs, caps)])"
| "match_atom ic (Group i d) s caps =
     map (\<lambda>(s', caps'). (s', caps'[i := Some (take (length s - length s') s)]))
       (match_disjunction ic d s caps)"
| "match_alternative ic [] s caps = [(s, caps)]"
| "match_alternative ic (t # ts) s caps =
     concat (map (\<lambda>(s', caps'). match_alternative ic ts s' caps') (match_atom ic t s caps))"
| "match_disjunction ic [] s caps = []"
| "match_disjunction ic (a # as) s caps =
     match_alternative ic a s caps @ match_disjunction ic as s caps"

text \<open>
  The match that starts exactly at the head of the text, as the length matched and the
  captures. Nothing in the modelled patterns looks behind the position, so the text before
  it is not needed.
\<close>

definition exec_at :: "regexp \<Rightarrow> string \<Rightarrow> (nat \<times> capture list) option" where
  "exec_at R S =
     (case match_disjunction (ignoreCase R) (pattern R) S (replicate (nCaps R) None) of
        [] \<Rightarrow> None
      | (S', caps) # _ \<Rightarrow> Some (length S - length S', caps))"

text \<open>
  \<open>RegExp.prototype[Symbol.split]\<close> without a limit: the splitter matches at position \<open>q\<close>
  only; a match that ends at the last split point \<open>p\<close> is passed over; otherwise the text
  since \<open>p\<close> is pushed, then every capture of the match, \<open>undefined\<close> ones included.
\<close>

function split_regexp_loop :: "regexp \<Rightarrow> string \<Rightarrow> string \<Rightarrow> capture list" where
  "split_regexp_loop R T [] = [Some T]"
| "split_regexp_loop R T (c # cs) =
     (case exec_at R (c # cs) of
        None \<Rightarrow> split_regexp_loop R (T @ [c]) cs
      | Some (n, caps) \<Rightarrow>
          if n = 0 \<and> T = [] then split_regexp_loop R (T @ [c]) cs
          else Some T # caps @ split_regexp_loop R [] (drop n (c # cs)))"
  by pat_completeness auto
termination
  by (relation "measure (\<lambda>(R, T, S). 2 * length S + (if T = [] then 0 else 1))") auto

definition split_regexp :: "string \<Rightarrow> regexp \<Rightarrow> capture list" where
  "split_regexp S R =
     (if S = [] then (case exec_at R S of None \<Rightarrow> [Some S] | Some z \<Rightarrow> [])
      else split_regexp_loop R [] S)"

text \<open>
  \<open>RegExp.prototype[Symbol.replace]\<close> for a replacement string without \<open>$\<close> patterns. With
  a global pattern the leftmost match at or after the position is replaced and the search
  goes on behind it, one character further when the match was empty; otherwise the leftmost
  match alone is replaced.
\<close>

function replace_loop :: "regexp \<Rightarrow> string \<Rightarrow> string \<Rightarrow> string" where
  "replace_loop R rep [] = (case exec_at R [] of None \<Rightarrow> [] | Some z \<Rightarrow> rep)"
| "replace_loop R rep (c # cs) =
     (case exec_at R (c # cs) of
        None \<Rightarrow> c # replace_loop R rep cs
      | Some (n, caps) \<Rightarrow>
          if n = 0 then rep @ c # replace_loop R rep cs
          else rep @ replace_loop R rep (drop n (c # cs)))"
  by pat_completeness auto
termination
  by (relation "measure (\<lambda>(R, rep, S). length S)") auto

fun replace_first :: "regexp \<Rightarrow> string \<Rightarrow> string \<Rightarrow> string" where
  "replace_first R rep [] = (case exec_at R [] of None \<Rightarrow> [] | Some z \<Rightarrow> rep)"
| "replace_first R rep (c # cs) =
     (case exec_at R (c # cs) of
        None \<Rightarrow> c # replace_first R rep cs
      | Some (n, caps) \<Rightarrow> rep @ drop n (c # cs))"

definition replace :: "string \<Rightarrow> regexp \<Rightarrow> string \<Rightarrow> string" where
  "replace S R rep = (if global R then replace_loop R rep S else replace_first R rep S)"

section \<open>React elements\<close>

text \<open>
  The data that \<open>Result.js\<close> reads: the props of the component, the configuration, the body of
  a successful response, and the error of a failed request with its optional response, the
  optional body of that response and the optional fields of that body.
\<close>

record device =
  display_name :: string

record props =
  device :: device
  timeout :: int
  queryLocation :: string
  queryType :: string
  queryVrf :: string
  queryTarget :: string

record messages =
  general :: string

record config =
  messages :: messages

record query_response =
  "output" :: string

record error_data =
  e_output :: "string option"
  e_keywords :: "string list option"
  e_alert :: "string option"

record error_response =
  e_data :: "error_data option"

record query_error =
  response :: "error_response option"
  message :: string

text \<open>
  What the fetch hook hands to the component: \<open>None\<close> stands for \<open>undefined\<close> or \<open>null\<close>. The
  hook also returns the function \<open>refetch\<close>; it is the one callback of the component.
\<close>

record fetch =
  data :: "query_response option"
  loading :: bool
  error :: "query_error option"

datatype callback = refetch

datatype jsval =
  Undefined
  | Str string
  | Bool bool
  | Strs "string list"
  | Err query_error
  | Fn callback

text \<open>
  An element is a component or tag name, its props and its children. A string child is a text
  node; a child that is \<open>undefined\<close>, the value of \<open>x && ...\<close> for a missing \<open>x\<close>, is
  \<open>Nothing\<close> and draws nothing. Props that only style an element (spacing, colours, fonts,
  \<open>css\<close>) and the forwarded \<open>ref\<close> are left out.
\<close>

datatype element =
  Element string "(string \<times> jsval) list" "element list"
  | TextNode string
  | Nothing

fun text_content :: "element \<Rightarrow> string" where
  "text_content (Element name ps kids) = concat (map text_content kids)"
| "text_content (TextNode s) = s"
| "text_content Nothing = []"

text \<open>All elements of a tree with a given name, the tree's root included, in document order.\<close>

fun elements_named :: "string \<Rightarrow> element \<Rightarrow> element list" where
  "elements_named name (Element name' ps kids) =
     (if name' = name then [Element name' ps kids] else [])
     @ concat (map (elements_named name) kids)"
| "elements_named name (TextNode s) = []"
| "elements_named name Nothing = []"

fun prop_of :: "element \<Rightarrow> string \<Rightarrow> jsval" where
  "prop_of (Element name ps kids) k = (case map_of ps k of None \<Rightarrow> Undefined | Some v \<Rightarrow> v)"
| "prop_of (TextNode s) k = Undefined"
| "prop_of Nothing k = Undefined"

section \<open>react-string-replace\<close>

text \<open>
  \<open>strReplace\<close> is the function \<open>reactStringReplace\<close> of the package react-string-replace,
  here as in its versions 0.4: given one string it returns what \<open>replaceString\<close> returns
  for it. \<open>replaceString\<close> returns the empty string as it is; any other string it splits by
  the pattern, \<open>str.split(re)\<close>, and in a loop over the odd indices \<open>i\<close> it reads
  \<open>result[i].length\<close> and \<open>result[i - 1].length\<close>, which throws a \<open>TypeError\<close> on
  \<open>undefined\<close>, and puts \<open>fn(result[i], i, offset)\<close> in the place of \<open>result[i]\<close>. The
  callback of \<open>Result.js\<close> uses the matched text only, so the index and the offset are not
  modelled. The array returned becomes the children of an element: a string is a text node.
\<close>

fun replace_odd :: "capture list \<Rightarrow> (string \<Rightarrow> element) \<Rightarrow> element list completion" where
  "replace_odd [] fn = Normal []"
| "replace_odd [x] fn = Normal [case x of None \<Rightarrow> Nothing | Some s \<Rightarrow> TextNode s]"
| "replace_odd (x # y # rest) fn =
     (case (x, y) of
        (Some s, Some m) \<Rightarrow>
          bind_completion (replace_odd rest fn) (\<lambda>r. Normal (TextNode s # fn m # r))
      | _ \<Rightarrow> Throw TypeError)"

definition replaceString :: "string \<Rightarrow> regexp \<Rightarrow> (string \<Rightarrow> element) \<Rightarrow> element list completion"
  where
  "replaceString str re fn =
     (if str = [] then Normal [TextNode str] else replace_odd (split_regexp str re) fn)"

definition reactStringReplace ::
  "string \<Rightarrow> regexp \<Rightarrow> (string \<Rightarrow> element) \<Rightarrow> element list completion" where
  "reactStringReplace source re fn = replaceString source re fn"

section \<open>Result.js\<close>

text \<open>The callback of \<open>FormattedError\<close>: the matched text as a \<open>strong\<close> element.\<close>

definition emphasis :: "string \<Rightarrow> element" where
  "emphasis match = Element ''Text'' [(''key'', Str match), (''as'', Str ''strong'')] [TextNode match]"

definition FormattedError :: "string list \<Rightarrow> string \<Rightarrow> element completion" where
  "FormattedError keywords msg =
     (let patternStr = ''('' @ join keywords ''|'' @ '')'' in
      bind_completion (RegExp patternStr ''gi'') (\<lambda>pattern.
      bind_completion (reactStringReplace msg pattern emphasis)
        (\<lambda>errorFmt. Normal (Element ''Text'' [] errorFmt))))"

text \<open>The request that the component hands to the fetch hook.\<close>

record request_data =
  query_location :: string
  query_type :: string
  query_vrf :: string
  query_target :: string

record request =
  url :: string
  "method" :: string
  request_data :: request_data
  request_timeout :: int

definition useAxios_config :: "props \<Rightarrow> request" where
  "useAxios_config p =
     \<lparr>url = ''/api/query'', method = ''post'',
      request_data = \<lparr>query_location = queryLocation p, query_type = queryType p,
                       query_vrf = queryVrf p, query_target = queryTarget p\<rparr>,
      request_timeout = timeout p\<rparr>"

text \<open>The regular expression literal \<open>/\n\n/g\<close>: two line feeds, no group, global.\<close>

definition two_newlines :: regexp where
  "two_newlines =
     \<lparr>pattern = [[PatternCharacter newline, PatternCharacter newline]], nCaps = 0,
      global = True, ignoreCase = False\<rparr>"

definition normalize_output :: "string \<Rightarrow> string" where
  "normalize_output out =
     replace (join (split_str out [backslash, CHR ''n'']) [newline]) two_newlines []"

definition cleanOutput :: "query_response option \<Rightarrow> jsval" where
  "cleanOutput d = (case d of None \<Rightarrow> Undefined | Some r \<Rightarrow> Str (normalize_output (output r)))"

text \<open>
  \<open>a || b\<close> on strings that may be \<open>undefined\<close>: the empty string is falsy as well.
  \<open>error.response?.data?.f\<close> is \<open>undefined\<close> as soon as one link of the chain is.
\<close>

definition or_else :: "string option \<Rightarrow> string option \<Rightarrow> string option" where
  "or_else a b = (case a of None \<Rightarrow> b | Some s \<Rightarrow> if s = [] then b else a)"

definition or_default :: "string option \<Rightarrow> string \<Rightarrow> string" where
  "or_default a b = (case a of None \<Rightarrow> b | Some s \<Rightarrow> if s = [] then b else s)"

definition response_data :: "(error_data \<Rightarrow> 'a option) \<Rightarrow> query_error \<Rightarrow> 'a option" where
  "response_data f e = Option.bind (Option.bind (response e) e_data) f"

definition errorKw :: "query_error option \<Rightarrow> string list" where
  "errorKw err =
     (case Option.bind err (response_data e_keywords) of None \<Rightarrow> [] | Some ks \<Rightarrow> ks)"

definition errorMsg :: "config \<Rightarrow> query_error option \<Rightarrow> string" where
  "errorMsg cfg err =
     or_default
       (or_else (Option.bind err (response_data e_output))
                (Option.bind err (\<lambda>e. Some (message e))))
       (general (messages cfg))"

definition status :: "query_error \<Rightarrow> string" where
  "status e = or_default (response_data e_alert e) ''error''"

definition Result :: "config \<Rightarrow> props \<Rightarrow> fetch \<Rightarrow> element" where
  "Result cfg p f =
     Element ''AccordionItem'' [(''isDisabled'', Bool (loading f))]
       [Element ''AccordionHeaderWrapper'' []
          [Element ''AccordionHeader'' []
             [Element ''ResultHeader''
                [(''title'', Str (display_name (device p))),
                 (''loading'', Bool (loading f)),
                 (''error'', case error f of None \<Rightarrow> Undefined | Some e \<Rightarrow> Err e)] []],
           Element ''ButtonGroup'' []
             [Element ''CopyButton''
                [(''copyValue'', cleanOutput (data f)), (''variant'', Str ''ghost'')] [],
              Element ''RequeryButton''
                [(''requery'', Fn refetch), (''variant'', Str ''ghost'')] []]],
        Element ''AccordionPanel'' []
          [Element ''Flex'' []
             [Element ''Flex'' []
                [case data f of
                   None \<Rightarrow> Nothing
                 | Some r \<Rightarrow>
                     Element ''Box'' []
                       [case cleanOutput (data f) of Str s \<Rightarrow> TextNode s | _ \<Rightarrow> Nothing],
                 case error f of
                   None \<Rightarrow> Nothing
                 | Some e \<Rightarrow>
                     Element ''Alert'' [(''status'', Str (status e))]
                       [Element ''FormattedError''
                          [(''keywords'', Strs (errorKw (error f))),
                           (''message'', Str (errorMsg cfg (error f)))] []]]]]]"

section \<open>The fetch hook and the retry button\<close>

text \<open>
  Modelled from the spec: the fetch hook \<open>useAxios\<close> is not under \<open>src/\<close>. The spec has it
  perform one POST request per mount and per retry, with the request it was given; a retry
  supersedes the previous display state; a response settles the request with data, a
  failure, a timeout included, settles it with an error.
\<close>

record hook =
  state :: fetch
  sent :: "request list"

datatype event = Mount | Retry | Respond query_response | Fail query_error

definition unmounted :: hook where
  "unmounted = \<lparr>state = \<lparr>data = None, loading = False, error = None\<rparr>, sent = []\<rparr>"

fun useAxios :: "request \<Rightarrow> hook \<Rightarrow> event \<Rightarrow> hook" where
  "useAxios req h Mount =
     \<lparr>state = \<lparr>data = None, loading = True, error = None\<rparr>, sent = sent h @ [req]\<rparr>"
| "useAxios req h Retry =
     \<lparr>state = \<lparr>data = None, loading = True, error = None\<rparr>, sent = sent h @ [req]\<rparr>"
| "useAxios req h (Respond r) =
     h\<lparr>state := \<lparr>data = Some r, loading = False, error = None\<rparr>\<rparr>"
| "useAxios req h (Fail e) =
     h\<lparr>state := \<lparr>data = None, loading = False, error = Some e\<rparr>\<rparr>"

definition run :: "request \<Rightarrow> event list \<Rightarrow> hook" where
  "run req evs = foldl (useAxios req) unmounted evs"

text \<open>
  Modelled from the spec: the component \<open>RequeryButton\<close> is not under \<open>src/\<close>. The spec calls
  it the retry trigger: its action invokes the function it was given as \<open>requery\<close>, and
  invoking \<open>refetch\<close> is the retry of the hook.
\<close>

definition RequeryButton_action :: "element \<Rightarrow> event option" where
  "RequeryButton_action b =
     (case prop_of b ''requery'' of Fn cb \<Rightarrow> (case cb of refetch \<Rightarrow> Some Retry) | _ \<Rightarrow> None)"

section \<open>Notions used in the statements\<close>

text \<open>
  A keyword is simple when its only syntax characters of regular expressions are dots. In
  the pattern each of its characters is an atom of its own.
\<close>

definition simple_keyword :: "string \<Rightarrow> bool" where
  "simple_keyword k = list_all (\<lambda>c. c = CHR ''.'' \<or> \<not> SyntaxCharacter c) k"

definition atom_of :: "char \<Rightarrow> atom" where
  "atom_of c = (if c = CHR ''.'' then AnyCharacter else PatternCharacter c)"

text \<open>
  What it means for a simple keyword to match a text: character by character, a dot against
  any character but a line terminator, another character against itself with the case
  ignored. A keyword matches at the head of a text, matches a whole text, or occurs
  somewhere in a text.
\<close>

definition keyword_char :: "char \<Rightarrow> char \<Rightarrow> bool" where
  "keyword_char c x =
     (if c = CHR ''.'' then x \<noteq> newline \<and> x \<noteq> carriage_return
      else Canonicalize True x = Canonicalize True c)"

fun keyword_matches_at :: "string \<Rightarrow> string \<Rightarrow> bool" where
  "keyword_matches_at [] s = True"
| "keyword_matches_at (c # k) [] = False"
| "keyword_matches_at (c # k) (x # s) = (keyword_char c x \<and> keyword_matches_at k s)"

definition keyword_matches :: "string \<Rightarrow> string \<Rightarrow> bool" where
  "keyword_matches k m = (length m = length k \<and> keyword_matches_at k m)"

fun keyword_occurs :: "string \<Rightarrow> string \<Rightarrow> bool" where
  "keyword_occurs k [] = keyword_matches_at k []"
| "keyword_occurs k (x # t) = (keyword_matches_at k (x # t) \<or> keyword_occurs k t)"

text \<open>An element is disabled by its props when it is given a true disabling flag.\<close>

definition disabled :: "element \<Rightarrow> bool" where
  "disabled el = (prop_of el ''isDisabled'' = Bool True \<or> prop_of el ''disabled'' = Bool True)"

text \<open>
  The alternatives of the pattern built from a list of simple keywords (joining the empty
  list gives the empty pattern, which has one empty alternative), and the regular expression
  with these alternatives in its one group.
\<close>

definition alternatives :: "string list \<Rightarrow> string list" where
  "alternatives ks = (if ks = [] then [[]] else ks)"

definition keyword_regexp :: "string list \<Rightarrow> regexp" where
  "keyword_regexp alts =
     \<lparr>pattern = [[Group 0 (map (map atom_of) alts)]], nCaps = 1, global = True,
      ignoreCase = True\<rparr>"

text \<open>
  The invariant of the split loop: no alternative matches at a position inside the text \<open>T\<close>
  gathered since the last split point, with \<open>S\<close> the text still to come.
\<close>

definition unmatched :: "string list \<Rightarrow> string \<Rightarrow> string \<Rightarrow> bool" where
  "unmatched alts T S =
     (\<forall>k\<in>set alts. \<forall>zs ys. T = zs @ ys \<and> ys \<noteq> [] \<longrightarrow> \<not> keyword_matches_at k (ys @ S))"

text \<open>
  A child of the formatted error is highlighted as it should be when it is plain text in
  which no keyword occurs, or the emphasis of a text that a keyword matches.
\<close>

fun highlighted :: "string list \<Rightarrow> element \<Rightarrow> bool" where
  "highlighted alts (TextNode t) = list_all (\<lambda>k. \<not> keyword_occurs k t) alts"
| "highlighted alts (Element name ps kids) =
     (Element name ps kids = emphasis (concat (map text_content kids))
      \<and> list_ex (\<lambda>k. keyword_matches k (concat (map text_content kids))) alts)"
| "highlighted alts Nothing = False"

section \<open>What the component renders\<close>

lemma Result_Box:
  "elements_named ''Box'' (Result cfg p f)
     = (case data f of
          None \<Rightarrow> []
        | Some r \<Rightarrow> [Element ''Box'' [] [TextNode (normalize_output (output r))]])"
  by (simp add: Result_def cleanOutput_def split: option.splits)

lemma Result_Alert:
  "elements_named ''Alert'' (Result cfg p f)
     = (case error f of
          None \<Rightarrow> []
        | Some e \<Rightarrow>
            [Element ''Alert'' [(''status'', Str (status e))]
               [Element ''FormattedError''
                  [(''keywords'', Strs (errorKw (error f))),
                   (''message'', Str (errorMsg cfg (error f)))] []]])"
  by (simp add: Result_def cleanOutput_def split: option.splits)

lemma Result_FormattedError:
  "elements_named ''FormattedError'' (Result cfg p f)
     = (case error f of
          None \<Rightarrow> []
        | Some e \<Rightarrow>
            [Element ''FormattedError''
               [(''keywords'', Strs (errorKw (error f))),
                (''message'', Str (errorMsg cfg (error f)))] []])"
  by (simp add: Result_def cleanOutput_def split: option.splits)

lemma Result_CopyButton:
  "elements_named ''CopyButton'' (Result cfg p f)
     = [Element ''CopyButton''
          [(''copyValue'', cleanOutput (data f)), (''variant'', Str ''ghost'')] []]"
  by (simp add: Result_def cleanOutput_def split: option.splits)

lemma Result_RequeryButton:
  "elements_named ''RequeryButton'' (Result cfg p f)
     = [Element ''RequeryButton'' [(''requery'', Fn refetch), (''variant'', Str ''ghost'')] []]"
  by (simp add: Result_def cleanOutput_def split: option.splits)

lemma Result_ResultHeader:
  "elements_named ''ResultHeader'' (Result cfg p f)
     = [Element ''ResultHeader''
          [(''title'', Str (display_name (device p))),
           (''loading'', Bool (loading f)),
           (''error'', case error f of None \<Rightarrow> Undefined | Some e \<Rightarrow> Err e)] []]"
  by (simp add: Result_def cleanOutput_def split: option.splits)

section \<open>Output normalization\<close>

text \<open>
  A run of three line feeds keeps one of them, a run of two keeps none: whether the line
  break between two lines survives depends on the parity of the run.
\<close>

lemma normalize_output_parity:
  "normalize_output (''b'' @ [newline, newline, newline] @ ''c'') = ''b'' @ [newline] @ ''c''
   \<and> normalize_output (''b'' @ [newline, newline] @ ''c'') = ''bc''"
  by (simp add: normalize_output_def split_str_def replace_def exec_at_def two_newlines_def
      Canonicalize_def backslash_def newline_def)

text \<open>
  C1. The claim has the output \<open>a\nb\n\nc\<close>, written with backslashes, normalized to the three
  lines \<open>a\<close>, \<open>b\<close>, \<open>c\<close>. The component gives the line \<open>a\<close> and the line \<open>bc\<close>: the two
  line feeds between \<open>b\<close> and \<open>c\<close> are both deleted, so the line break is lost.
\<close>

theorem cleanOutput_glues_lines:
  "cleanOutput (Some \<lparr>output = ''a'' @ [backslash, CHR ''n''] @ ''b''
       @ [backslash, CHR ''n'', backslash, CHR ''n''] @ ''c''\<rparr>)
     = Str (''a'' @ [newline] @ ''bc'')
   \<and> ''a'' @ [newline] @ ''bc'' \<noteq> ''a'' @ [newline] @ ''b'' @ [newline] @ ''c''"
  by (simp add: cleanOutput_def normalize_output_def split_str_def replace_def exec_at_def
      two_newlines_def Canonicalize_def backslash_def newline_def)

section \<open>The pattern of simple keywords\<close>

lemma simple_char:
  assumes "c = CHR ''.'' \<or> \<not> SyntaxCharacter c"
  shows "c \<noteq> CHR ''('' \<and> c \<noteq> CHR '')'' \<and> c \<noteq> CHR ''|''"
  using assms by (auto simp: SyntaxCharacter_def)

lemma ParsePattern_simple:
  "simple_keyword w \<Longrightarrow>
   ParsePattern (w @ rest) n (i, alts, cur) stk
     = ParsePattern rest n (i, alts, cur @ map atom_of w) stk"
proof (induction w arbitrary: cur)
  case Nil
  then show ?case by simp
next
  case (Cons c w)
  then have c: "c = CHR ''.'' \<or> \<not> SyntaxCharacter c" and w: "simple_keyword w"
    by (simp_all add: simple_keyword_def)
  from simple_char [OF c] c Cons.IH [OF w, of "cur @ [atom_of c]"]
  show ?case by (auto simp: atom_of_def)
qed

lemma ParsePattern_join:
  "ks \<noteq> [] \<Longrightarrow> list_all simple_keyword ks \<Longrightarrow>
   ParsePattern (join ks ''|'' @ rest) n (i, alts, []) stk
     = ParsePattern rest n
         (i, alts @ map (map atom_of) (butlast ks), map atom_of (last ks)) stk"
proof (induction ks "''|''" arbitrary: alts rule: join.induct)
  case 1
  then show ?case by simp
next
  case (2 x)
  then show ?case using ParsePattern_simple [of x rest n i alts "[]" stk] by simp
next
  case (3 x y ys)
  then have x: "simple_keyword x" and r: "list_all simple_keyword (y # ys)"
    by simp_all
  have "ParsePattern (join (x # y # ys) ''|'' @ rest) n (i, alts, []) stk
      = ParsePattern (x @ (CHR ''|'' # join (y # ys) ''|'' @ rest)) n (i, alts, []) stk"
    by simp
  also have "\<dots> = ParsePattern (CHR ''|'' # join (y # ys) ''|'' @ rest) n
                     (i, alts, map atom_of x) stk"
    using ParsePattern_simple [OF x, of _ n i alts "[]" stk] by simp
  also have "\<dots> = ParsePattern (join (y # ys) ''|'' @ rest) n
                     (i, alts @ [map atom_of x], []) stk"
    by simp
  also have "\<dots> = ParsePattern rest n
      (i, (alts @ [map atom_of x]) @ map (map atom_of) (butlast (y # ys)),
       map atom_of (last (y # ys))) stk"
    using "3.hyps" [OF _ r, of "alts @ [map atom_of x]"] by simp
  finally show ?case by simp
qed

lemma RegExp_keywords:
  assumes "list_all simple_keyword ks"
  shows "RegExp (''('' @ join ks ''|'' @ '')'') ''gi'' = Normal (keyword_regexp (alternatives ks))"
proof (cases "ks = []")
  case True
  then show ?thesis by (simp add: RegExp_def alternatives_def keyword_regexp_def)
next
  case False
  have "map (map atom_of) (butlast ks) @ [map atom_of (last ks)] = map (map atom_of) ks"
    using False by (metis append_butlast_last_id list.simps(9) map_append list.map(1))
  then show ?thesis
    using False ParsePattern_join [OF False assms, of "'')''" 1 0 "[]" "[(0, [], [])]"]
    by (simp add: RegExp_def alternatives_def keyword_regexp_def)
qed

lemma match_atom_of:
  "match_atom True (atom_of c) (x # xs) caps = (if keyword_char c x then [(xs, caps)] else [])"
  by (simp add: atom_of_def keyword_char_def)

lemma match_keyword:
  "match_alternative True (map atom_of k) s caps
     = (if keyword_matches_at k s then [(drop (length k) s, caps)] else [])"
proof (induction k arbitrary: s)
  case Nil
  then show ?case by simp
next
  case (Cons c k)
  show ?case
  proof (cases s)
    case Nil
    then show ?thesis by (simp add: atom_of_def)
  next
    case (Cons x xs)
    then show ?thesis using Cons.IH [of xs] by (simp add: match_atom_of)
  qed
qed

lemma match_keywords:
  "match_disjunction True (map (map atom_of) ks) s caps
     = map (\<lambda>k. (drop (length k) s, caps)) (filter (\<lambda>k. keyword_matches_at k s) ks)"
  by (induction ks) (simp_all add: match_keyword)

lemma keyword_matches_at_length: "keyword_matches_at k s \<Longrightarrow> length k \<le> length s"
  by (induction k s rule: keyword_matches_at.induct) simp_all

lemma keyword_matches_at_append: "keyword_matches_at k s \<Longrightarrow> keyword_matches_at k (s @ t)"
  by (induction k s rule: keyword_matches_at.induct) simp_all

lemma keyword_matches_at_take:
  "keyword_matches_at k s \<Longrightarrow> keyword_matches k (take (length k) s)"
  by (induction k s rule: keyword_matches_at.induct) (simp_all add: keyword_matches_def)

lemma keyword_occurs_split:
  "keyword_occurs k t \<Longrightarrow> \<exists>zs ys. t = zs @ ys \<and> keyword_matches_at k ys"
proof (induction t)
  case Nil
  then show ?case by simp
next
  case (Cons x t)
  show ?case
  proof (cases "keyword_matches_at k (x # t)")
    case True
    then show ?thesis by (metis append_Nil)
  next
    case False
    with Cons.prems have "keyword_occurs k t" by simp
    from Cons.IH [OF this] obtain zs ys where "t = zs @ ys" and "keyword_matches_at k ys"
      by auto
    then show ?thesis by (metis append_Cons)
  qed
qed

lemma find_filter:
  "List.find P xs = (case filter P xs of [] \<Rightarrow> None | x # _ \<Rightarrow> Some x)"
  by (induction xs) simp_all

text \<open>
  The pattern of keywords matches at a position with the first alternative that matches the
  text there, and captures the text matched.
\<close>

lemma exec_at_keywords:
  "exec_at (keyword_regexp alts) s
     = (case List.find (\<lambda>k. keyword_matches_at k s) alts of
          None \<Rightarrow> None
        | Some k \<Rightarrow> Some (length k, [Some (take (length k) s)]))"
proof -
  have len: "length s - (length s - length k) = length k" if "keyword_matches_at k s" for k
    using keyword_matches_at_length [OF that] by simp
  have "match_disjunction True [[Group 0 (map (map atom_of) alts)]] s [None]
      = map (\<lambda>k. (drop (length k) s, [Some (take (length k) s)]))
          (filter (\<lambda>k. keyword_matches_at k s) alts)"
    using len by (simp add: match_keywords comp_def cong: map_cong)
  then have m: "match_disjunction (ignoreCase (keyword_regexp alts))
        (pattern (keyword_regexp alts)) s (replicate (nCaps (keyword_regexp alts)) None)
      = map (\<lambda>k. (drop (length k) s, [Some (take (length k) s)]))
          (filter (\<lambda>k. keyword_matches_at k s) alts)"
    by (simp add: keyword_regexp_def)
  show ?thesis
  proof (cases "filter (\<lambda>k. keyword_matches_at k s) alts")
    case Nil
    then show ?thesis by (simp add: exec_at_def m find_filter)
  next
    case (Cons k ks)
    then have "k \<in> set (filter (\<lambda>k. keyword_matches_at k s) alts)"
      by simp
    then have "keyword_matches_at k s"
      by simp
    from len [OF this] Cons show ?thesis
      by (simp add: exec_at_def m find_filter)
  qed
qed

section \<open>Splitting a message by its keywords\<close>

lemma text_content_emphasis: "text_content (emphasis m) = m"
  by (simp add: emphasis_def)

lemma highlighted_emphasis:
  "highlighted alts (emphasis m) = list_ex (\<lambda>k. keyword_matches k m) alts"
  by (simp add: emphasis_def)

lemma replace_odd_split_content:
  "\<exists>kids. replace_odd (split_regexp_loop (keyword_regexp alts) T S) emphasis = Normal kids
      \<and> concat (map text_content kids) = T @ S"
proof (induction "keyword_regexp alts" T S rule: split_regexp_loop.induct)
  case (1 T)
  show ?case by simp
next
  case (2 T c cs)
  show ?case
  proof (cases "List.find (\<lambda>k. keyword_matches_at k (c # cs)) alts")
    case None
    then have e: "exec_at (keyword_regexp alts) (c # cs) = None"
      by (simp add: exec_at_keywords)
    from 2(1) [OF e] e show ?thesis by simp
  next
    case (Some k)
    then have e: "exec_at (keyword_regexp alts) (c # cs)
        = Some (length k, [Some (take (length k) (c # cs))])"
      by (simp add: exec_at_keywords)
    show ?thesis
    proof (cases "length k = 0 \<and> T = []")
      case True
      from 2(2) [OF e refl True] e True show ?thesis by simp
    next
      case False
      from 2(3) [OF e refl False] obtain kids where
        k: "replace_odd (split_regexp_loop (keyword_regexp alts) [] (drop (length k) (c # cs)))
              emphasis = Normal kids"
        and c: "concat (map text_content kids) = drop (length k) (c # cs)"
        by auto
      have "take (length k) (c # cs) @ drop (length k) (c # cs) = c # cs"
        by (rule append_take_drop_id)
      moreover have "split_regexp_loop (keyword_regexp alts) T (c # cs)
          = Some T # Some (take (length k) (c # cs))
              # split_regexp_loop (keyword_regexp alts) [] (drop (length k) (c # cs))"
        using e False by auto
      ultimately show ?thesis
        using k c by (simp add: text_content_emphasis del: split_regexp_loop.simps)
    qed
  qed
qed

lemma unmatched_Nil: "unmatched alts [] S"
  by (simp add: unmatched_def)

lemma unmatched_plain:
  assumes ne: "\<forall>k\<in>set alts. k \<noteq> []" and u: "unmatched alts T S"
  shows "highlighted alts (TextNode T)"
proof -
  have "\<not> keyword_occurs k T" if k: "k \<in> set alts" for k
  proof
    assume "keyword_occurs k T"
    from keyword_occurs_split [OF this] obtain zs ys where
      zy: "T = zs @ ys" and m: "keyword_matches_at k ys"
      by auto
    from ne k have "k \<noteq> []"
      by simp
    with m have "ys \<noteq> []"
      by (cases k) auto
    moreover from m have "keyword_matches_at k (ys @ S)"
      by (rule keyword_matches_at_append)
    ultimately show False
      using u k zy by (auto simp: unmatched_def)
  qed
  then show ?thesis
    by (simp add: list_all_iff)
qed

lemma unmatched_step:
  assumes u: "unmatched alts T (c # cs)"
    and f: "List.find (\<lambda>k. keyword_matches_at k (c # cs)) alts = None"
  shows "unmatched alts (T @ [c]) cs"
  unfolding unmatched_def
proof (intro ballI allI impI)
  fix k zs ys
  assume k: "k \<in> set alts" and h: "T @ [c] = zs @ ys \<and> ys \<noteq> []"
  then obtain ys' where ys: "ys = ys' @ [c]" and T: "T = zs @ ys'"
    by (metis append_butlast_last_id butlast_append butlast_snoc last_appendR last_snoc)
  show "\<not> keyword_matches_at k (ys @ cs)"
  proof (cases "ys' = []")
    case True
    from f k have "\<not> keyword_matches_at k (c # cs)"
      by (simp add: find_None_iff)
    with True ys show ?thesis by simp
  next
    case False
    with u k T have "\<not> keyword_matches_at k (ys' @ c # cs)"
      by (auto simp: unmatched_def)
    with ys show ?thesis by simp
  qed
qed

lemma replace_odd_split_highlights:
  assumes ne: "\<forall>k\<in>set alts. k \<noteq> []"
  shows "unmatched alts T S \<Longrightarrow>
    \<exists>kids. replace_odd (split_regexp_loop (keyword_regexp alts) T S) emphasis = Normal kids
      \<and> list_all (highlighted alts) kids"
proof (induction "keyword_regexp alts" T S rule: split_regexp_loop.induct)
  case (1 T)
  from unmatched_plain [OF ne "1.prems"] show ?case by simp
next
  case (2 T c cs)
  show ?case
  proof (cases "List.find (\<lambda>k. keyword_matches_at k (c # cs)) alts")
    case None
    then have e: "exec_at (keyword_regexp alts) (c # cs) = None"
      by (simp add: exec_at_keywords)
    from 2(1) [OF e unmatched_step [OF "2.prems" None]] e show ?thesis by simp
  next
    case (Some k)
    then have e: "exec_at (keyword_regexp alts) (c # cs)
        = Some (length k, [Some (take (length k) (c # cs))])"
      by (simp add: exec_at_keywords)
    from Some have k: "k \<in> set alts" and p: "keyword_matches_at k (c # cs)"
      by (auto simp: find_Some_iff)
    from ne k have False: "\<not> (length k = 0 \<and> T = [])"
      by simp
    from 2(3) [OF e refl False unmatched_Nil] obtain kids where
      r: "replace_odd (split_regexp_loop (keyword_regexp alts) [] (drop (length k) (c # cs)))
            emphasis = Normal kids"
      and h: "list_all (highlighted alts) kids"
      by auto
    from keyword_matches_at_take [OF p] k
    have m: "highlighted alts (emphasis (take (length k) (c # cs)))"
      by (auto simp: highlighted_emphasis list_ex_iff)
    have t: "highlighted alts (TextNode T)"
      using ne "2.prems" by (rule unmatched_plain)
    have "split_regexp_loop (keyword_regexp alts) T (c # cs)
        = Some T # Some (take (length k) (c # cs))
            # split_regexp_loop (keyword_regexp alts) [] (drop (length k) (c # cs))"
      using e False by auto
    then show ?thesis
      using r h m t by (simp del: split_regexp_loop.simps)
  qed
qed

lemma FormattedError_simple:
  assumes "list_all simple_keyword ks"
  shows "FormattedError ks msg
     = bind_completion (replaceString msg (keyword_regexp (alternatives ks)) emphasis)
         (\<lambda>errorFmt. Normal (Element ''Text'' [] errorFmt))"
  using RegExp_keywords [OF assms]
  by (simp add: FormattedError_def reactStringReplace_def)

section \<open>Error formatting\<close>

text \<open>
  Keywords that are non-empty and have no syntax character of regular expressions but the
  dot are highlighted as intended: for a non-empty list of them and any message,
  \<open>FormattedError\<close> returns a text element whose children are, in order, the pieces of the
  message; every emphasized child is the emphasis of a piece that a keyword matches, case
  ignored, and every other child is plain text in which no keyword occurs. So the keywords
  \<open>["timeout"]\<close> and the message \<open>Request timeout occurred\<close> give the plain text
  \<open>Request \<close>, the emphasized \<open>timeout\<close> and the plain text \<open> occurred\<close>.
\<close>

lemma FormattedError_simple_highlights:
  "(\<forall>keywords msg.
      keywords \<noteq> [] \<and> list_all (\<lambda>k. k \<noteq> [] \<and> simple_keyword k) keywords \<longrightarrow>
      (\<exists>kids. FormattedError keywords msg = Normal (Element ''Text'' [] kids)
         \<and> list_all (highlighted keywords) kids
         \<and> concat (map text_content kids) = msg))
   \<and> FormattedError [''timeout''] ''Request timeout occurred''
       = Normal (Element ''Text'' []
           [TextNode ''Request '', emphasis ''timeout'', TextNode '' occurred''])"
proof (intro conjI allI impI)
  fix ks :: "string list" and msg :: string
  assume a: "ks \<noteq> [] \<and> list_all (\<lambda>k. k \<noteq> [] \<and> simple_keyword k) ks"
  then have l: "list_all simple_keyword ks" and ne: "\<forall>k\<in>set ks. k \<noteq> []"
    and alt: "alternatives ks = ks"
    by (simp_all add: list_all_iff alternatives_def)
  show "\<exists>kids. FormattedError ks msg = Normal (Element ''Text'' [] kids)
         \<and> list_all (highlighted ks) kids
         \<and> concat (map text_content kids) = msg"
  proof (cases "msg = []")
    case True
    with ne show ?thesis
      by (auto simp: FormattedError_simple [OF l] replaceString_def list_all_iff neq_Nil_conv)
  next
    case False
    from replace_odd_split_content [of ks "[]" msg] obtain kids where
      k: "replace_odd (split_regexp_loop (keyword_regexp ks) [] msg) emphasis = Normal kids"
      and c: "concat (map text_content kids) = msg"
      by auto
    from replace_odd_split_highlights [OF ne unmatched_Nil, of msg] k
    have "list_all (highlighted ks) kids"
      by simp
    with False k c show ?thesis
      by (simp add: FormattedError_simple [OF l] replaceString_def split_regexp_def alt)
  qed
next
  show "FormattedError [''timeout''] ''Request timeout occurred''
       = Normal (Element ''Text'' []
           [TextNode ''Request '', emphasis ''timeout'', TextNode '' occurred''])"
    by (simp add: FormattedError_def RegExp_def SyntaxCharacter_def backslash_def
        reactStringReplace_def replaceString_def split_regexp_def exec_at_def Canonicalize_def)
qed

text \<open>
  For such keywords, the empty list included, the text of the element returned, the rendered
  pieces in order, is the message.
\<close>

lemma FormattedError_simple_text:
  "list_all simple_keyword keywords \<Longrightarrow>
   \<exists>el. FormattedError keywords msg = Normal el \<and> text_content el = msg"
proof -
  assume l: "list_all simple_keyword keywords"
  show ?thesis
  proof (cases "msg = []")
    case True
    then show ?thesis by (simp add: FormattedError_simple [OF l] replaceString_def)
  next
    case False
    from replace_odd_split_content [of "alternatives keywords" "[]" msg] obtain kids where
      "replace_odd (split_regexp_loop (keyword_regexp (alternatives keywords)) [] msg) emphasis
         = Normal kids"
      and "concat (map text_content kids) = msg"
      by auto
    with False show ?thesis
      by (simp add: FormattedError_simple [OF l] replaceString_def split_regexp_def)
  qed
qed

text \<open>
  C2. The claim has \<open>FormattedError\<close>, for every non-empty keyword list and every message,
  build the alternation over the keywords and emphasize each match, the rest being plain
  text. The component puts the keywords into the pattern as they are, so a keyword with a
  parenthesis is read as a piece of a regular expression and not as the text to find. For
  the keywords \<open>["("]\<close> the pattern is \<open>(()\<close>, the constructor throws and nothing is
  rendered; for the device name \<open>NYC (Core)\<close> as keyword, the message
  \<open>Error connecting to NYC (Core)\<close>, which holds the keyword, is rendered as one plain text
  with nothing emphasized.
\<close>

theorem FormattedError_unescaped_keyword:
  "[''(''] \<noteq> []
   \<and> FormattedError [''(''] ''Request timeout occurred'' = Throw SyntaxError
   \<and> FormattedError [''NYC (Core)''] ''Error connecting to NYC (Core)''
       = Normal (Element ''Text'' [] [TextNode ''Error connecting to NYC (Core)''])"
  by (simp add: FormattedError_def RegExp_def SyntaxCharacter_def backslash_def
      reactStringReplace_def replaceString_def split_regexp_def exec_at_def Canonicalize_def)

text \<open>
  C9. The claim has the rendered pieces, in order, make up the message for every keyword list
  and every message. The keyword \<open>(a)\<close> brings a second group into the pattern; the split
  then yields the matched \<open>a\<close> twice, and the callback is applied to the \<open>y\<close> that follows,
  so the message \<open>xay\<close> is rendered with the text \<open>xaay\<close>. For the keywords \<open>["("]\<close> no
  piece is rendered at all.
\<close>

theorem FormattedError_duplicates:
  "FormattedError [''(a)''] ''xay''
     = Normal (Element ''Text'' []
         [TextNode ''x'', emphasis ''a'', TextNode ''a'', emphasis ''y''])
   \<and> text_content (Element ''Text'' []
         [TextNode ''x'', emphasis ''a'', TextNode ''a'', emphasis ''y'']) = ''xaay''
   \<and> ''xaay'' \<noteq> ''xay''"
  by (simp add: FormattedError_def RegExp_def SyntaxCharacter_def backslash_def
      reactStringReplace_def replaceString_def split_regexp_def exec_at_def Canonicalize_def
      emphasis_def)

text \<open>
  The same happens with a keyword as plain as a device name with parentheses: the error for
  the device \<open>NYC (Core)\<close> is rendered with the text \<open>Core\<close> twice.
\<close>

lemma FormattedError_device_name:
  "FormattedError [''NYC (Core)''] ''Error connecting to NYC Core''
     = Normal (Element ''Text'' []
         [TextNode ''Error connecting to '', emphasis ''NYC Core'', TextNode ''Core'',
          emphasis []])"
  by (simp add: FormattedError_def RegExp_def SyntaxCharacter_def backslash_def
      reactStringReplace_def replaceString_def split_regexp_def exec_at_def Canonicalize_def
      emphasis_def)

section \<open>The error alert\<close>

text \<open>
  C3, as amended. For every error whose response carries no output, the message handed to
  the formatted error of the alert is the error's own message when that is not empty, and
  the general message of the configuration otherwise.
\<close>

theorem Result_message_without_output:
  assumes "error f = Some e" and "response_data e_output e = None"
  shows "elements_named ''FormattedError'' (Result cfg p f)
     = [Element ''FormattedError''
          [(''keywords'', Strs (errorKw (Some e))),
           (''message'', Str (if message e = [] then general (messages cfg) else message e))]
          []]"
  using assms by (simp add: Result_FormattedError errorMsg_def or_else_def or_default_def)

text \<open>
  Witness for C3: an error without a response and with an empty message; the general
  message is shown.
\<close>

theorem Result_message_without_output_witness:
  "error \<lparr>data = None, loading = False, error = Some \<lparr>response = None, message = []\<rparr>\<rparr>
     = Some \<lparr>response = None, message = []\<rparr>
   \<and> response_data e_output \<lparr>response = None, message = []\<rparr> = None
   \<and> elements_named ''FormattedError''
        (Result \<lparr>messages = \<lparr>general = ''Something went wrong.''\<rparr>\<rparr>
           \<lparr>device = \<lparr>display_name = ''core1''\<rparr>, timeout = 5000, queryLocation = ''core1'',
            queryType = ''ping'', queryVrf = ''default'', queryTarget = ''192.0.2.1''\<rparr>
           \<lparr>data = None, loading = False, error = Some \<lparr>response = None, message = []\<rparr>\<rparr>)
     = [Element ''FormattedError''
          [(''keywords'', Strs []), (''message'', Str ''Something went wrong.'')] []]"
proof -
  have h1: "error \<lparr>data = None, loading = False,
                  error = Some \<lparr>response = None, message = []\<rparr>\<rparr>
     = Some \<lparr>response = None, message = []\<rparr>"
    by simp
  have h2: "response_data e_output \<lparr>response = None, message = []\<rparr> = None"
    by (simp add: response_data_def)
  from Result_message_without_output [OF h1 h2,
      of "\<lparr>messages = \<lparr>general = ''Something went wrong.''\<rparr>\<rparr>"
         "\<lparr>device = \<lparr>display_name = ''core1''\<rparr>, timeout = 5000, queryLocation = ''core1'',
           queryType = ''ping'', queryVrf = ''default'', queryTarget = ''192.0.2.1''\<rparr>"]
    h1 h2
  show ?thesis by (simp add: errorKw_def response_data_def)
qed

text \<open>
  Counterexample to C3 as stated: a network failure has no response, so no output, and the
  alert shows the message of the error, not the general message.
\<close>

theorem Result_network_error_message:
  "response_data e_output \<lparr>response = None, message = ''Network Error''\<rparr> = None
   \<and> elements_named ''FormattedError''
        (Result \<lparr>messages = \<lparr>general = ''Something went wrong.''\<rparr>\<rparr>
           \<lparr>device = \<lparr>display_name = ''core1''\<rparr>, timeout = 5000, queryLocation = ''core1'',
            queryType = ''ping'', queryVrf = ''default'', queryTarget = ''192.0.2.1''\<rparr>
           \<lparr>data = None, loading = False,
            error = Some \<lparr>response = None, message = ''Network Error''\<rparr>\<rparr>)
     = [Element ''FormattedError''
          [(''keywords'', Strs []), (''message'', Str ''Network Error'')] []]
   \<and> ''Network Error'' \<noteq> ''Something went wrong.''"
  by (simp add: Result_FormattedError errorMsg_def errorKw_def response_data_def or_else_def
      or_default_def)

text \<open>
  C7, as amended. For every error, the status of the alert is the alert flag of the error's
  response when that flag is present and not the empty string, and \<open>error\<close> otherwise.
\<close>

theorem Result_alert_status:
  assumes "error f = Some e"
  shows "map (\<lambda>a. prop_of a ''status'') (elements_named ''Alert'' (Result cfg p f))
     = [Str (case response_data e_alert e of
               None \<Rightarrow> ''error''
             | Some a \<Rightarrow> if a = [] then ''error'' else a)]"
  using assms by (simp add: Result_Alert status_def or_default_def)

text \<open>Witness for C7: a response whose alert flag is \<open>warning\<close>.\<close>

theorem Result_alert_status_witness:
  "error \<lparr>data = None, loading = False,
          error = Some \<lparr>response = Some \<lparr>e_data = Some \<lparr>e_output = Some ''No route found'',
                    e_keywords = Some [''route''], e_alert = Some ''warning''\<rparr>\<rparr>,
                  message = ''Request failed with status code 400''\<rparr>\<rparr>
     = Some \<lparr>response = Some \<lparr>e_data = Some \<lparr>e_output = Some ''No route found'',
                    e_keywords = Some [''route''], e_alert = Some ''warning''\<rparr>\<rparr>,
             message = ''Request failed with status code 400''\<rparr>
   \<and> map (\<lambda>a. prop_of a ''status'')
       (elements_named ''Alert''
          (Result \<lparr>messages = \<lparr>general = ''Something went wrong.''\<rparr>\<rparr>
             \<lparr>device = \<lparr>display_name = ''core1''\<rparr>, timeout = 5000, queryLocation = ''core1'',
              queryType = ''ping'', queryVrf = ''default'', queryTarget = ''192.0.2.1''\<rparr>
             \<lparr>data = None, loading = False,
              error = Some \<lparr>response = Some \<lparr>e_data = Some \<lparr>e_output = Some ''No route found'',
                        e_keywords = Some [''route''], e_alert = Some ''warning''\<rparr>\<rparr>,
                      message = ''Request failed with status code 400''\<rparr>\<rparr>))
     = [Str ''warning'']"
proof -
  have h: "error \<lparr>data = None, loading = False,
          error = Some \<lparr>response = Some \<lparr>e_data = Some \<lparr>e_output = Some ''No route found'',
                    e_keywords = Some [''route''], e_alert = Some ''warning''\<rparr>\<rparr>,
                  message = ''Request failed with status code 400''\<rparr>\<rparr>
     = Some \<lparr>response = Some \<lparr>e_data = Some \<lparr>e_output = Some ''No route found'',
                    e_keywords = Some [''route''], e_alert = Some ''warning''\<rparr>\<rparr>,
             message = ''Request failed with status code 400''\<rparr>"
    by simp
  from Result_alert_status [OF h,
      of "\<lparr>messages = \<lparr>general = ''Something went wrong.''\<rparr>\<rparr>"
         "\<lparr>device = \<lparr>display_name = ''core1''\<rparr>, timeout = 5000, queryLocation = ''core1'',
           queryType = ''ping'', queryVrf = ''default'', queryTarget = ''192.0.2.1''\<rparr>"]
    h
  show ?thesis by (simp add: response_data_def)
qed

text \<open>
  Counterexample to C7 as stated: the response carries an alert flag, the empty string, and
  the alert is shown with the status \<open>error\<close>, not with that flag.
\<close>

theorem Result_empty_alert_flag:
  "response_data e_alert
      \<lparr>response = Some \<lparr>e_data = Some \<lparr>e_output = Some ''No route found'',
          e_keywords = Some [''route''], e_alert = Some []\<rparr>\<rparr>,
       message = ''Request failed with status code 400''\<rparr> = Some []
   \<and> map (\<lambda>a. prop_of a ''status'')
       (elements_named ''Alert''
          (Result \<lparr>messages = \<lparr>general = ''Something went wrong.''\<rparr>\<rparr>
             \<lparr>device = \<lparr>display_name = ''core1''\<rparr>, timeout = 5000, queryLocation = ''core1'',
              queryType = ''ping'', queryVrf = ''default'', queryTarget = ''192.0.2.1''\<rparr>
             \<lparr>data = None, loading = False,
              error = Some \<lparr>response = Some \<lparr>e_data = Some \<lparr>e_output = Some ''No route found'',
                        e_keywords = Some [''route''], e_alert = Some []\<rparr>\<rparr>,
                      message = ''Request failed with status code 400''\<rparr>\<rparr>))
     = [Str ''error'']
   \<and> ''error'' \<noteq> []"
  by (simp add: Result_Alert status_def response_data_def or_default_def)

section \<open>The visual states\<close>

text \<open>
  C4, as amended. For every state of the fetch hook, the success block is rendered exactly
  when data is present and the error alert exactly when an error is present, each whatever
  the other and the loading flag are, so both are rendered when both are present; the header
  and the copy and retry buttons are rendered once in every state.
\<close>

theorem Result_blocks:
  "(elements_named ''Box'' (Result cfg p f) \<noteq> [] \<longleftrightarrow> data f \<noteq> None)
   \<and> (elements_named ''Alert'' (Result cfg p f) \<noteq> [] \<longleftrightarrow> error f \<noteq> None)
   \<and> length (elements_named ''ResultHeader'' (Result cfg p f)) = 1
   \<and> length (elements_named ''CopyButton'' (Result cfg p f)) = 1
   \<and> length (elements_named ''RequeryButton'' (Result cfg p f)) = 1"
  by (simp add: Result_Box Result_Alert Result_ResultHeader Result_CopyButton
      Result_RequeryButton split: option.splits)

text \<open>
  Counterexample to C4 as stated: in a state with data and an error the success block and
  the error alert are both rendered.
\<close>

theorem Result_box_and_alert:
  "elements_named ''Box''
     (Result \<lparr>messages = \<lparr>general = ''Something went wrong.''\<rparr>\<rparr>
        \<lparr>device = \<lparr>display_name = ''core1''\<rparr>, timeout = 5000, queryLocation = ''core1'',
         queryType = ''ping'', queryVrf = ''default'', queryTarget = ''192.0.2.1''\<rparr>
        \<lparr>data = Some \<lparr>output = ''ok''\<rparr>, loading = False,
         error = Some \<lparr>response = None, message = ''Network Error''\<rparr>\<rparr>)
     = [Element ''Box'' [] [TextNode ''ok'']]
   \<and> elements_named ''Alert''
     (Result \<lparr>messages = \<lparr>general = ''Something went wrong.''\<rparr>\<rparr>
        \<lparr>device = \<lparr>display_name = ''core1''\<rparr>, timeout = 5000, queryLocation = ''core1'',
         queryType = ''ping'', queryVrf = ''default'', queryTarget = ''192.0.2.1''\<rparr>
        \<lparr>data = Some \<lparr>output = ''ok''\<rparr>, loading = False,
         error = Some \<lparr>response = None, message = ''Network Error''\<rparr>\<rparr>)
     = [Element ''Alert'' [(''status'', Str ''error'')]
          [Element ''FormattedError''
             [(''keywords'', Strs []), (''message'', Str ''Network Error'')] []]]"
  by (simp add: Result_Box Result_Alert normalize_output_def split_str_def replace_def
      exec_at_def two_newlines_def Canonicalize_def backslash_def newline_def status_def
      errorKw_def errorMsg_def response_data_def or_else_def or_default_def)

text \<open>
  C6, as amended. In every state the accordion item, which is the root of what the component
  renders and holds the header and both buttons, is disabled exactly when the hook is
  loading; the component gives no disabling flag to the copy button or the retry button
  themselves.
\<close>

theorem Result_disables_item:
  "(disabled (Result cfg p f) \<longleftrightarrow> loading f)
   \<and> elements_named ''AccordionItem'' (Result cfg p f) = [Result cfg p f]
   \<and> length (elements_named ''CopyButton'' (Result cfg p f)
             @ elements_named ''RequeryButton'' (Result cfg p f)) = 2
   \<and> list_all (\<lambda>b. \<not> disabled b)
        (elements_named ''CopyButton'' (Result cfg p f)
         @ elements_named ''RequeryButton'' (Result cfg p f))"
proof -
  have "disabled (Result cfg p f) \<longleftrightarrow> loading f"
    by (simp add: Result_def disabled_def)
  moreover have "elements_named ''AccordionItem'' (Result cfg p f) = [Result cfg p f]"
    by (simp add: Result_def cleanOutput_def split: option.splits)
  ultimately show ?thesis
    by (simp add: Result_CopyButton Result_RequeryButton disabled_def)
qed

text \<open>
  Counterexample to C6 as stated: while the hook is loading, neither the copy button nor the
  retry button is given a disabling flag.
\<close>

theorem Result_buttons_not_disabled:
  "loading \<lparr>data = None, loading = True, error = None\<rparr>
   \<and> elements_named ''CopyButton''
       (Result \<lparr>messages = \<lparr>general = ''Something went wrong.''\<rparr>\<rparr>
          \<lparr>device = \<lparr>display_name = ''core1''\<rparr>, timeout = 5000, queryLocation = ''core1'',
           queryType = ''ping'', queryVrf = ''default'', queryTarget = ''192.0.2.1''\<rparr>
          \<lparr>data = None, loading = True, error = None\<rparr>)
     = [Element ''CopyButton'' [(''copyValue'', Undefined), (''variant'', Str ''ghost'')] []]
   \<and> elements_named ''RequeryButton''
       (Result \<lparr>messages = \<lparr>general = ''Something went wrong.''\<rparr>\<rparr>
          \<lparr>device = \<lparr>display_name = ''core1''\<rparr>, timeout = 5000, queryLocation = ''core1'',
           queryType = ''ping'', queryVrf = ''default'', queryTarget = ''192.0.2.1''\<rparr>
          \<lparr>data = None, loading = True, error = None\<rparr>)
     = [Element ''RequeryButton'' [(''requery'', Fn refetch), (''variant'', Str ''ghost'')] []]
   \<and> \<not> disabled
         (Element ''CopyButton'' [(''copyValue'', Undefined), (''variant'', Str ''ghost'')] [])
   \<and> \<not> disabled
         (Element ''RequeryButton'' [(''requery'', Fn refetch), (''variant'', Str ''ghost'')] [])"
  by (simp add: Result_CopyButton Result_RequeryButton disabled_def cleanOutput_def)

section \<open>The copy action\<close>

text \<open>
  In every state the copy button is given the text that the success block shows, and
  \<open>undefined\<close> when there is no data and no success block.
\<close>

lemma Result_copy_is_shown:
  "map (\<lambda>b. prop_of b ''copyValue'') (elements_named ''CopyButton'' (Result cfg p f))
     = [case data f of None \<Rightarrow> Undefined | Some r \<Rightarrow> Str (normalize_output (output r))]
   \<and> elements_named ''Box'' (Result cfg p f)
     = (case data f of
          None \<Rightarrow> []
        | Some r \<Rightarrow> [Element ''Box'' [] [TextNode (normalize_output (output r))]])"
  by (simp add: Result_CopyButton Result_Box cleanOutput_def split: option.splits)

text \<open>
  C10. The claim has the copy button receive, when data is present, the output with the
  literal \<open>\n\<close> replaced by line feeds and the blank lines deleted. For the output
  \<open>a\nb\n\nc\<close>, written with backslashes, that is the three lines \<open>a\<close>, \<open>b\<close>, \<open>c\<close>. The
  component hands the copy button the line \<open>a\<close> and the line \<open>bc\<close>: with the blank line the
  line break between \<open>b\<close> and \<open>c\<close> is deleted as well. Without data the copy button is given
  \<open>undefined\<close>.
\<close>

theorem Result_copyValue_glues_lines:
  "map (\<lambda>b. prop_of b ''copyValue'')
     (elements_named ''CopyButton''
        (Result cfg p
           \<lparr>data = Some \<lparr>output = ''a'' @ [backslash, CHR ''n''] @ ''b''
                    @ [backslash, CHR ''n'', backslash, CHR ''n''] @ ''c''\<rparr>,
            loading = False, error = None\<rparr>))
     = [Str (''a'' @ [newline] @ ''bc'')]
   \<and> ''a'' @ [newline] @ ''bc'' \<noteq> ''a'' @ [newline] @ ''b'' @ [newline] @ ''c''
   \<and> map (\<lambda>b. prop_of b ''copyValue'')
       (elements_named ''CopyButton''
          (Result cfg p \<lparr>data = None, loading = False, error = None\<rparr>))
     = [Undefined]"
  by (simp add: Result_CopyButton cleanOutput_def normalize_output_def split_str_def
      replace_def exec_at_def two_newlines_def Canonicalize_def backslash_def newline_def)

section \<open>Requests\<close>

text \<open>Every mount and every retry sends the request once more; nothing else sends one.\<close>

lemma sent_foldl:
  "sent (foldl (useAxios req) h evs)
     = sent h @ replicate (length (filter (\<lambda>ev. ev = Mount \<or> ev = Retry) evs)) req"
proof (induction evs arbitrary: h)
  case Nil
  then show ?case by simp
next
  case (Cons ev evs)
  show ?case by (cases ev) (simp_all add: Cons.IH replicate_app_Cons_same)
qed

text \<open>
  C5. The retry button is given the function \<open>refetch\<close> of the hook, and its action is the
  retry of the hook. In every state of the hook a retry sends one more request, the request
  built from the props, at once and whatever happened before; so after a mount, any events
  and a retry, the first request sent (the mount's) and the last (the retry's) are both the
  request built from the props, with the same four query parameters, url, method and
  timeout.
\<close>

theorem retry_same_request:
  "map RequeryButton_action (elements_named ''RequeryButton'' (Result cfg p f)) = [Some Retry]
   \<and> sent (useAxios (useAxios_config p) h Retry) = sent h @ [useAxios_config p]
   \<and> hd (sent (run (useAxios_config p) (Mount # evs @ [Retry]))) = useAxios_config p
   \<and> last (sent (run (useAxios_config p) (Mount # evs @ [Retry]))) = useAxios_config p
   \<and> length (sent (run (useAxios_config p) (Mount # evs @ [Retry])))
       = length (sent (run (useAxios_config p) (Mount # evs))) + 1"
  by (simp add: Result_RequeryButton RequeryButton_action_def run_def sent_foldl unmounted_def)

text \<open>
  Witness for C5: a mount, a failure and a retry send the same request twice.
\<close>

theorem retry_same_request_witness:
  "sent (run (useAxios_config
        \<lparr>device = \<lparr>display_name = ''core1''\<rparr>, timeout = 5000, queryLocation = ''core1'',
         queryType = ''ping'', queryVrf = ''default'', queryTarget = ''192.0.2.1''\<rparr>)
      [Mount, Fail \<lparr>response = None, message = ''Network Error''\<rparr>, Retry])
     = [\<lparr>url = ''/api/query'', method = ''post'',
         request_data = \<lparr>query_location = ''core1'', query_type = ''ping'',
                          query_vrf = ''default'', query_target = ''192.0.2.1''\<rparr>,
         request_timeout = 5000\<rparr>,
        \<lparr>url = ''/api/query'', method = ''post'',
         request_data = \<lparr>query_location = ''core1'', query_type = ''ping'',
                          query_vrf = ''default'', query_target = ''192.0.2.1''\<rparr>,
         request_timeout = 5000\<rparr>]"
  using retry_same_request
    [of "\<lparr>messages = \<lparr>general = ''Something went wrong.''\<rparr>\<rparr>"
        "\<lparr>device = \<lparr>display_name = ''core1''\<rparr>, timeout = 5000, queryLocation = ''core1'',
          queryType = ''ping'', queryVrf = ''default'', queryTarget = ''192.0.2.1''\<rparr>"
        "\<lparr>data = None, loading = False,
          error = Some \<lparr>response = None, message = ''Network Error''\<rparr>\<rparr>"
        "run (useAxios_config
            \<lparr>device = \<lparr>display_name = ''core1''\<rparr>, timeout = 5000, queryLocation = ''core1'',
             queryType = ''ping'', queryVrf = ''default'', queryTarget = ''192.0.2.1''\<rparr>)
          [Mount, Fail \<lparr>response = None, message = ''Network Error''\<rparr>]"
        "[Fail \<lparr>response = None, message = ''Network Error''\<rparr>]"]
  by (simp add: run_def unmounted_def useAxios_config_def)

text \<open>
  C8. On mount the hook sends exactly one request: a POST to \<open>/api/query\<close> whose body holds
  the four query parameters of the props and whose timeout is the timeout of the props. A
  request that fails, by a timeout as by anything else, settles with its error, and the
  component then renders the alert for that error and no success block.
\<close>

theorem mount_request:
  "sent (run (useAxios_config p) [Mount])
     = [\<lparr>url = ''/api/query'', method = ''post'',
         request_data = \<lparr>query_location = queryLocation p, query_type = queryType p,
                          query_vrf = queryVrf p, query_target = queryTarget p\<rparr>,
         request_timeout = timeout p\<rparr>]
   \<and> elements_named ''Alert'' (Result cfg p (state (run (useAxios_config p) [Mount, Fail e])))
     = [Element ''Alert'' [(''status'', Str (status e))]
          [Element ''FormattedError''
             [(''keywords'', Strs (errorKw (Some e))),
              (''message'', Str (errorMsg cfg (Some e)))] []]]
   \<and> elements_named ''Box'' (Result cfg p (state (run (useAxios_config p) [Mount, Fail e])))
     = []"
  by (simp add: run_def unmounted_def useAxios_config_def Result_Alert Result_Box)

text \<open>
  Witness for C8: a request that times out; the alert shows the message of the timeout
  error.
\<close>

theorem mount_request_witness:
  "elements_named ''Alert''
     (Result \<lparr>messages = \<lparr>general = ''Something went wrong.''\<rparr>\<rparr>
        \<lparr>device = \<lparr>display_name = ''core1''\<rparr>, timeout = 5000, queryLocation = ''core1'',
         queryType = ''ping'', queryVrf = ''default'', queryTarget = ''192.0.2.1''\<rparr>
        (state (run (useAxios_config
            \<lparr>device = \<lparr>display_name = ''core1''\<rparr>, timeout = 5000, queryLocation = ''core1'',
             queryType = ''ping'', queryVrf = ''default'', queryTarget = ''192.0.2.1''\<rparr>)
          [Mount, Fail \<lparr>response = None, message = ''timeout of 5000ms exceeded''\<rparr>])))
     = [Element ''Alert'' [(''status'', Str ''error'')]
          [Element ''FormattedError''
             [(''keywords'', Strs []), (''message'', Str ''timeout of 5000ms exceeded'')] []]]"
  using mount_request
    [of "\<lparr>device = \<lparr>display_name = ''core1''\<rparr>, timeout = 5000, queryLocation = ''core1'',
          queryType = ''ping'', queryVrf = ''default'', queryTarget = ''192.0.2.1''\<rparr>"
        "\<lparr>messages = \<lparr>general = ''Something went wrong.''\<rparr>\<rparr>"
        "\<lparr>response = None, message = ''timeout of 5000ms exceeded''\<rparr>"]
  by (simp add: status_def errorKw_def errorMsg_def response_data_def or_else_def
      or_default_def)

end
